theory Spec2Isabelle
  imports Main "HOL-Library.Multiset"
begin

section \<open>Data model\<close>

text \<open>
  Modelled from the spec: the package \<open>types\<close> (structs \<open>Service\<close> and \<open>Destination\<close>)
  is not among the sources. The spec lists the attributes: a service has host, port,
  transport protocol, scheduling algorithm, name and mode label; a destination has host,
  port, weight, forwarding mode, name and the reference to its owning service.
  \<open>ipvs.go\<close> itself names the fields \<open>Name\<close>, \<open>Mode\<close> (service) and \<open>Name\<close>,
  \<open>ServiceId\<close> (destination). The two structs share field names, so the fields of the
  records carry the prefix \<open>s\<close> or \<open>d\<close>.
\<close>

record Service =
  sName :: string
  sHost :: string
  sPort :: nat
  sProtocol :: string
  sScheduler :: string
  sMode :: string

record Destination =
  dName :: string
  dHost :: string
  dPort :: nat
  dWeight :: int
  dMode :: string
  dServiceId :: string

text \<open>
  Modelled from the spec: the kernel-side representation (\<open>gipvs.Service\<close>,
  \<open>gipvs.Destination\<close> of the external library) and the four translators
  \<open>ToIpvsService\<close>, \<open>FromService\<close>, \<open>ToIpvsDestination\<close>, \<open>fromDestination\<close>, which
  live in a file of the package that is not among the sources. The spec calls them field
  mappings with no semantic transform, and says that name, mode and owner reference are
  metadata the kernel does not keep.
\<close>

record ipvs_Service =
  kHost :: string
  kPort :: nat
  kProtocol :: string
  kScheduler :: string

record ipvs_Destination =
  kdHost :: string
  kdPort :: nat
  kdWeight :: int
  kdMode :: string

definition ToIpvsService :: "Service \<Rightarrow> ipvs_Service" where
  "ToIpvsService s =
     \<lparr>kHost = sHost s, kPort = sPort s, kProtocol = sProtocol s, kScheduler = sScheduler s\<rparr>"

definition FromService :: "ipvs_Service \<Rightarrow> Service" where
  "FromService k =
     \<lparr>sName = [], sHost = kHost k, sPort = kPort k, sProtocol = kProtocol k,
      sScheduler = kScheduler k, sMode = []\<rparr>"

definition ToIpvsDestination :: "Destination \<Rightarrow> ipvs_Destination" where
  "ToIpvsDestination d =
     \<lparr>kdHost = dHost d, kdPort = dPort d, kdWeight = dWeight d, kdMode = dMode d\<rparr>"

definition fromDestination :: "ipvs_Destination \<Rightarrow> Destination" where
  "fromDestination k =
     \<lparr>dName = [], dHost = kdHost k, dPort = kdPort k, dWeight = kdWeight k,
      dMode = kdMode k, dServiceId = []\<rparr>"

text \<open>Go's \<open>error\<close> values: an opaque message.\<close>

datatype error = Error string

section \<open>The collaborators of the engine\<close>

text \<open>
  The state provider (interface \<open>state.State\<close>, declared outside the sources): the two
  queries that \<open>ipvs.go\<close> issues. Within one pass the provider is a value.
\<close>

record State =
  GetServices :: "Service list"
  GetDestinations :: "Service \<Rightarrow> Destination list"

text \<open>
  The kernel control plane (the external library \<open>gipvs\<close>), over any type \<open>'k\<close> of kernel
  states. Every primitive may fail and may change the kernel state.
\<close>

record 'k gipvs =
  gipvs_GetServices :: "'k \<Rightarrow> (error + ipvs_Service list) \<times> 'k"
  gipvs_GetService :: "ipvs_Service \<Rightarrow> 'k \<Rightarrow> (error + ipvs_Destination list) \<times> 'k"
  gipvs_AddService :: "ipvs_Service \<Rightarrow> 'k \<Rightarrow> error option \<times> 'k"
  gipvs_DeleteService :: "ipvs_Service \<Rightarrow> 'k \<Rightarrow> error option \<times> 'k"
  gipvs_AddDestination :: "ipvs_Service \<Rightarrow> ipvs_Destination \<Rightarrow> 'k \<Rightarrow> error option \<times> 'k"
  gipvs_DeleteDestination :: "ipvs_Service \<Rightarrow> ipvs_Destination \<Rightarrow> 'k \<Rightarrow> error option \<times> 'k"
  gipvs_Flush :: "'k \<Rightarrow> error option \<times> 'k"

text \<open>
  The set library \<open>mapset\<close>: a set is a list without repetition. \<open>Iter\<close> walks a Go map,
  whose order is not fixed; the order is a parameter of the model, one function for the
  sets of services and one for the sets of destinations. A function is admissible when it
  lists every element of the set once (\<open>iteration_ok\<close>); nothing below depends on more.
\<close>

type_synonym 'a mapset = "'a list"

definition NewSet :: "'a mapset" where
  "NewSet = []"

definition Add :: "'a \<Rightarrow> 'a mapset \<Rightarrow> 'a mapset" where
  "Add x S = (if x \<in> set S then S else x # S)"

definition Difference :: "'a mapset \<Rightarrow> 'a mapset \<Rightarrow> 'a mapset" where
  "Difference S T = filter (\<lambda>x. x \<notin> set T) S"

record iteration =
  Iter_services :: "Service mapset \<Rightarrow> Service list"
  Iter_destinations :: "Destination mapset \<Rightarrow> Destination list"


section \<open>Calls, their log, and sequencing\<close>

text \<open>
  Every query to the provider and every call of the kernel library is logged, a kernel
  call with its outcome (\<open>None\<close>: no error). The log is what the claims about the order
  and the number of calls are stated on.
\<close>

datatype event =
    StateGetServices
  | StateGetDestinations Service
  | KGetServices "error option"
  | KGetService ipvs_Service "error option"
  | KAddService ipvs_Service "error option"
  | KDeleteService ipvs_Service "error option"
  | KAddDestination ipvs_Service ipvs_Destination "error option"
  | KDeleteDestination ipvs_Service ipvs_Destination "error option"
  | KFlush "error option"

fun ev_result :: "event \<Rightarrow> error option" where
  "ev_result StateGetServices = None"
| "ev_result (StateGetDestinations s) = None"
| "ev_result (KGetServices r) = r"
| "ev_result (KGetService s r) = r"
| "ev_result (KAddService s r) = r"
| "ev_result (KDeleteService s r) = r"
| "ev_result (KAddDestination s d r) = r"
| "ev_result (KDeleteDestination s d r) = r"
| "ev_result (KFlush r) = r"

fun is_mutation :: "event \<Rightarrow> bool" where
  "is_mutation (KAddService s r) = True"
| "is_mutation (KDeleteService s r) = True"
| "is_mutation (KAddDestination s d r) = True"
| "is_mutation (KDeleteDestination s d r) = True"
| "is_mutation (KFlush r) = True"
| "is_mutation ev = False"


text \<open>
  A piece of the engine takes the kernel state and returns its result (\<open>Inl\<close>: the error
  it returns), the kernel state it leaves, and the calls it made. A function whose Go
  result is only \<open>error\<close> returns \<open>Inr ()\<close> for \<open>nil\<close>.
\<close>

type_synonym ('k, 'a) prog = "'k \<Rightarrow> (error + 'a) \<times> 'k \<times> event list"

definition returnM :: "'a \<Rightarrow> ('k, 'a) prog" where
  "returnM a k = (Inr a, k, [])"

text \<open>\<open>x, err := m; if err != nil { return err }; f x\<close>\<close>

definition thenM :: "('k, 'a) prog \<Rightarrow> ('a \<Rightarrow> ('k, 'b) prog) \<Rightarrow> ('k, 'b) prog" where
  "thenM m f k =
     (case m k of
        (Inl e, k1, t1) \<Rightarrow> (Inl e, k1, t1)
      | (Inr a, k1, t1) \<Rightarrow> (case f a k1 of (r, k2, t2) \<Rightarrow> (r, k2, t1 @ t2)))"

text \<open>\<open>for _, x := range xs { if err := body x; err != nil { return err } }\<close>\<close>

fun for_range :: "('a \<Rightarrow> ('k, unit) prog) \<Rightarrow> 'a list \<Rightarrow> ('k, unit) prog" where
  "for_range body [] k = returnM () k"
| "for_range body (x # xs) k = thenM (body x) (\<lambda>_. for_range body xs) k"

definition as_result :: "error option \<Rightarrow> error + unit" where
  "as_result r = (case r of None \<Rightarrow> Inr () | Some e \<Rightarrow> Inl e)"

definition as_error :: "error + 'a \<Rightarrow> error option" where
  "as_error r = (case r of Inl e \<Rightarrow> Some e | Inr a \<Rightarrow> None)"

definition state_GetServices :: "State \<Rightarrow> ('k, Service list) prog" where
  "state_GetServices st k = (Inr (GetServices st), k, [StateGetServices])"

definition state_GetDestinations :: "State \<Rightarrow> Service \<Rightarrow> ('k, Destination list) prog" where
  "state_GetDestinations st svc k = (Inr (GetDestinations st svc), k, [StateGetDestinations svc])"

definition call_GetServices :: "'k gipvs \<Rightarrow> ('k, ipvs_Service list) prog" where
  "call_GetServices A k =
     (case gipvs_GetServices A k of (r, k') \<Rightarrow> (r, k', [KGetServices (as_error r)]))"

definition call_GetService :: "'k gipvs \<Rightarrow> ipvs_Service \<Rightarrow> ('k, ipvs_Destination list) prog" where
  "call_GetService A s k =
     (case gipvs_GetService A s k of (r, k') \<Rightarrow> (r, k', [KGetService s (as_error r)]))"

definition call_AddService :: "'k gipvs \<Rightarrow> ipvs_Service \<Rightarrow> ('k, unit) prog" where
  "call_AddService A s k =
     (case gipvs_AddService A s k of (r, k') \<Rightarrow> (as_result r, k', [KAddService s r]))"

definition call_DeleteService :: "'k gipvs \<Rightarrow> ipvs_Service \<Rightarrow> ('k, unit) prog" where
  "call_DeleteService A s k =
     (case gipvs_DeleteService A s k of (r, k') \<Rightarrow> (as_result r, k', [KDeleteService s r]))"

definition call_AddDestination ::
  "'k gipvs \<Rightarrow> ipvs_Service \<Rightarrow> ipvs_Destination \<Rightarrow> ('k, unit) prog" where
  "call_AddDestination A s d k =
     (case gipvs_AddDestination A s d k of (r, k') \<Rightarrow> (as_result r, k', [KAddDestination s d r]))"

definition call_DeleteDestination ::
  "'k gipvs \<Rightarrow> ipvs_Service \<Rightarrow> ipvs_Destination \<Rightarrow> ('k, unit) prog" where
  "call_DeleteDestination A s d k =
     (case gipvs_DeleteDestination A s d k of
        (r, k') \<Rightarrow> (as_result r, k', [KDeleteDestination s d r]))"

definition call_Flush :: "'k gipvs \<Rightarrow> ('k, unit) prog" where
  "call_Flush A k = (case gipvs_Flush A k of (r, k') \<Rightarrow> (as_result r, k', [KFlush r]))"

section \<open>The reconciliation engine (ipvs.go)\<close>

text \<open>
  The mutex of \<open>Ipvs\<close> and the debug logging are left out: the model is of one pass run
  alone.
\<close>

text \<open>
  Lines 136 to 145. The loop variable is a copy of the element; the copy has its name and
  mode cleared and is added to the set.
\<close>

definition stateServicesLoop :: "Service list \<Rightarrow> Service mapset" where
  "stateServicesLoop svcs =
     foldl (\<lambda>stateSet s. Add (s\<lparr>sName := [], sMode := []\<rparr>) stateSet) NewSet svcs"

definition getStateServicesSet :: "State \<Rightarrow> ('k, Service mapset) prog" where
  "getStateServicesSet st =
     thenM (state_GetServices st) (\<lambda>svcs. returnM (stateServicesLoop svcs))"

text \<open>Lines 147 to 159.\<close>

definition currentServicesLoop :: "ipvs_Service list \<Rightarrow> Service mapset" where
  "currentServicesLoop svcs =
     foldl (\<lambda>currentSet s. Add (FromService s) currentSet) NewSet svcs"

definition getCurrentServicesSet :: "'k gipvs \<Rightarrow> ('k, Service mapset) prog" where
  "getCurrentServicesSet A =
     thenM (call_GetServices A) (\<lambda>svcs. returnM (currentServicesLoop svcs))"

text \<open>Lines 161 to 182. The health filter is commented out in the source.\<close>

definition stateDestinationsLoop :: "Destination list \<Rightarrow> Destination mapset" where
  "stateDestinationsLoop dsts =
     foldl (\<lambda>stateSet d. Add (d\<lparr>dName := [], dServiceId := []\<rparr>) stateSet) NewSet dsts"

definition getStateDestinationsSet :: "State \<Rightarrow> Service \<Rightarrow> ('k, Destination mapset) prog" where
  "getStateDestinationsSet st svc =
     thenM (state_GetDestinations st svc) (\<lambda>dsts. returnM (stateDestinationsLoop dsts))"

text \<open>Lines 184 to 196.\<close>

definition currentDestinationsLoop :: "ipvs_Destination list \<Rightarrow> Destination mapset" where
  "currentDestinationsLoop dsts =
     foldl (\<lambda>currentSet d. Add (fromDestination d) currentSet) NewSet dsts"

definition getCurrentDestinationsSet :: "'k gipvs \<Rightarrow> Service \<Rightarrow> ('k, Destination mapset) prog" where
  "getCurrentDestinationsSet A svc =
     thenM (call_GetService A (ToIpvsService svc)) (\<lambda>dsts.
       returnM (currentDestinationsLoop dsts))"

text \<open>Lines 119 to 134.\<close>

definition addServiceAndDestinations ::
  "'k gipvs \<Rightarrow> Service \<Rightarrow> Destination list \<Rightarrow> ('k, unit) prog" where
  "addServiceAndDestinations A svc dsts =
     (let ipvsService = ToIpvsService svc in
      thenM (call_AddService A ipvsService) (\<lambda>_.
        for_range (\<lambda>d. call_AddDestination A ipvsService (ToIpvsDestination d)) dsts))"

text \<open>Lines 91 to 117.\<close>

definition syncDestinations :: "'k gipvs \<Rightarrow> iteration \<Rightarrow> State \<Rightarrow> Service \<Rightarrow> ('k, unit) prog" where
  "syncDestinations A it st svc =
     thenM (getStateDestinationsSet st svc) (\<lambda>stateSet.
     thenM (getCurrentDestinationsSet A svc) (\<lambda>currentSet.
       (let rulesToAdd = Difference stateSet currentSet;
            rulesToRemove = Difference currentSet stateSet in
        thenM (for_range
                 (\<lambda>destination.
                    call_AddDestination A (ToIpvsService svc) (ToIpvsDestination destination))
                 (Iter_destinations it rulesToAdd)) (\<lambda>_.
        for_range
          (\<lambda>destination.
             call_DeleteDestination A (ToIpvsService svc) (ToIpvsDestination destination))
          (Iter_destinations it rulesToRemove)))))"

text \<open>Lines 46 to 89.\<close>

definition Sync :: "'k gipvs \<Rightarrow> iteration \<Rightarrow> State \<Rightarrow> ('k, unit) prog" where
  "Sync A it st =
     thenM (getStateServicesSet st) (\<lambda>stateSet.
     thenM (getCurrentServicesSet A) (\<lambda>currentSet.
       (let rulesToAdd = Difference stateSet currentSet;
            rulesToRemove = Difference currentSet stateSet in
        thenM (for_range
                 (\<lambda>service.
                    thenM (state_GetDestinations st service) (\<lambda>dsts.
                      addServiceAndDestinations A service dsts))
                 (Iter_services it rulesToAdd)) (\<lambda>_.
        thenM (for_range
                 (\<lambda>service. call_DeleteService A (ToIpvsService service))
                 (Iter_services it rulesToRemove)) (\<lambda>_.
        thenM (state_GetServices st) (\<lambda>svcs.
          for_range (syncDestinations A it st) svcs))))))"

text \<open>Lines 198 to 201.\<close>

definition Flush :: "'k gipvs \<Rightarrow> ('k, unit) prog" where
  "Flush A = call_Flush A"

section \<open>Notions the properties are stated with\<close>

text \<open>The comparison key of a service and of a destination: the fields the sets compare.\<close>

definition service_identity :: "Service \<Rightarrow> string \<times> nat \<times> string \<times> string" where
  "service_identity s = (sHost s, sPort s, sProtocol s, sScheduler s)"

definition destination_identity :: "Destination \<Rightarrow> string \<times> nat \<times> int \<times> string" where
  "destination_identity d = (dHost d, dPort d, dWeight d, dMode d)"

text \<open>No call in the log returned an error.\<close>

definition clean :: "event list \<Rightarrow> bool" where
  "clean tr \<longleftrightarrow> (\<forall>ev \<in> set tr. ev_result ev = None)"

text \<open>
  An outcome stops at the first error: either no call failed and the result is \<open>nil\<close>, or
  exactly the last call failed and its error is the result.
\<close>

definition stops_at_error :: "(error + 'a) \<times> 'k \<times> event list \<Rightarrow> bool" where
  "stops_at_error out =
     (case out of
        (Inr a, k, tr) \<Rightarrow> clean tr
      | (Inl e, k, tr) \<Rightarrow> tr \<noteq> [] \<and> clean (butlast tr) \<and> ev_result (last tr) = Some e)"

text \<open>The kernel state that the logged calls produce when they are made again in order.\<close>

fun replay_event :: "'k gipvs \<Rightarrow> 'k \<Rightarrow> event \<Rightarrow> 'k" where
  "replay_event A k StateGetServices = k"
| "replay_event A k (StateGetDestinations s) = k"
| "replay_event A k (KGetServices r) = snd (gipvs_GetServices A k)"
| "replay_event A k (KGetService s r) = snd (gipvs_GetService A s k)"
| "replay_event A k (KAddService s r) = snd (gipvs_AddService A s k)"
| "replay_event A k (KDeleteService s r) = snd (gipvs_DeleteService A s k)"
| "replay_event A k (KAddDestination s d r) = snd (gipvs_AddDestination A s d k)"
| "replay_event A k (KDeleteDestination s d r) = snd (gipvs_DeleteDestination A s d k)"
| "replay_event A k (KFlush r) = snd (gipvs_Flush A k)"

definition replay :: "'k gipvs \<Rightarrow> event list \<Rightarrow> 'k \<Rightarrow> 'k" where
  "replay A tr k = foldl (replay_event A) k tr"

text \<open>The log of one successful run of \<open>addServiceAndDestinations\<close> after its query.\<close>

definition added_log :: "State \<Rightarrow> Service \<Rightarrow> event list" where
  "added_log st s =
     StateGetDestinations s # KAddService (ToIpvsService s) None #
     map (\<lambda>d. KAddDestination (ToIpvsService s) (ToIpvsDestination d) None) (GetDestinations st s)"

text \<open>
  Services of the desired state with the same identity have the same destinations, up to
  the fields the comparison ignores. It holds when the identities are unique.
\<close>

definition destinations_agree :: "State \<Rightarrow> bool" where
  "destinations_agree st \<longleftrightarrow>
     (\<forall>s \<in> set (GetServices st). \<forall>t \<in> set (GetServices st).
        service_identity s = service_identity t \<longrightarrow>
        set (stateDestinationsLoop (GetDestinations st s)) =
        set (stateDestinationsLoop (GetDestinations st t)))"


section \<open>A reference kernel\<close>

text \<open>
  Modelled from the spec: a kernel table that meets the contract, to run the engine on
  concrete inputs. The table lists each service with its destinations. \<open>faults\<close> is a
  schedule of injected failures: each call takes the head, and fails without touching the
  table when it is \<open>True\<close>. A call also fails when its target is missing or already
  there. Deleting a service removes its destinations with it.
\<close>

record kernel =
  table :: "(ipvs_Service \<times> ipvs_Destination list) list"
  faults :: "bool list"

definition fault :: "kernel \<Rightarrow> bool" where
  "fault k = (case faults k of [] \<Rightarrow> False | b # bs \<Rightarrow> b)"

definition consume :: "kernel \<Rightarrow> kernel" where
  "consume k = k\<lparr>faults := tl (faults k)\<rparr>"



definition ref_GetServices :: "kernel \<Rightarrow> (error + ipvs_Service list) \<times> kernel" where
  "ref_GetServices k =
     (if fault k then (Inl (Error ''netlink''), consume k)
      else (Inr (map fst (table k)), consume k))"

definition ref_GetService ::
  "ipvs_Service \<Rightarrow> kernel \<Rightarrow> (error + ipvs_Destination list) \<times> kernel" where
  "ref_GetService s k =
     (if fault k then (Inl (Error ''netlink''), consume k)
      else case map_of (table k) s of
             None \<Rightarrow> (Inl (Error ''no such service''), consume k)
           | Some ds \<Rightarrow> (Inr ds, consume k))"

definition ref_AddService :: "ipvs_Service \<Rightarrow> kernel \<Rightarrow> error option \<times> kernel" where
  "ref_AddService s k =
     (if fault k then (Some (Error ''netlink''), consume k)
      else if s \<in> fst ` set (table k) then (Some (Error ''service exists''), consume k)
      else (None, consume (k\<lparr>table := table k @ [(s, [])]\<rparr>)))"

definition ref_DeleteService :: "ipvs_Service \<Rightarrow> kernel \<Rightarrow> error option \<times> kernel" where
  "ref_DeleteService s k =
     (if fault k then (Some (Error ''netlink''), consume k)
      else if s \<notin> fst ` set (table k) then (Some (Error ''no such service''), consume k)
      else (None, consume (k\<lparr>table := filter (\<lambda>entry. fst entry \<noteq> s) (table k)\<rparr>)))"

definition ref_AddDestination ::
  "ipvs_Service \<Rightarrow> ipvs_Destination \<Rightarrow> kernel \<Rightarrow> error option \<times> kernel" where
  "ref_AddDestination s d k =
     (if fault k then (Some (Error ''netlink''), consume k)
      else case map_of (table k) s of
             None \<Rightarrow> (Some (Error ''no such service''), consume k)
           | Some ds \<Rightarrow>
               if d \<in> set ds then (Some (Error ''destination exists''), consume k)
               else (None, consume (k\<lparr>table :=
                      map (\<lambda>entry. if fst entry = s then (s, snd entry @ [d]) else entry)
                        (table k)\<rparr>)))"

definition ref_DeleteDestination ::
  "ipvs_Service \<Rightarrow> ipvs_Destination \<Rightarrow> kernel \<Rightarrow> error option \<times> kernel" where
  "ref_DeleteDestination s d k =
     (if fault k then (Some (Error ''netlink''), consume k)
      else case map_of (table k) s of
             None \<Rightarrow> (Some (Error ''no such service''), consume k)
           | Some ds \<Rightarrow>
               if d \<notin> set ds then (Some (Error ''no such destination''), consume k)
               else (None, consume (k\<lparr>table :=
                      map (\<lambda>entry. if fst entry = s then (s, removeAll d (snd entry)) else entry)
                        (table k)\<rparr>)))"

definition ref_Flush :: "kernel \<Rightarrow> error option \<times> kernel" where
  "ref_Flush k =
     (if fault k then (Some (Error ''netlink''), consume k)
      else (None, consume (k\<lparr>table := []\<rparr>)))"

definition ref_gipvs :: "kernel gipvs" where
  "ref_gipvs =
     \<lparr>gipvs_GetServices = ref_GetServices, gipvs_GetService = ref_GetService,
      gipvs_AddService = ref_AddService, gipvs_DeleteService = ref_DeleteService,
      gipvs_AddDestination = ref_AddDestination,
      gipvs_DeleteDestination = ref_DeleteDestination, gipvs_Flush = ref_Flush\<rparr>"

text \<open>Concrete inputs: the first scenario of the spec, and variations of it.\<close>

definition in_order :: iteration where
  "in_order = \<lparr>Iter_services = (\<lambda>S. S), Iter_destinations = (\<lambda>S. S)\<rparr>"

definition web :: Service where
  "web = \<lparr>sName = ''web'', sHost = ''10.8.0.1'', sPort = 80, sProtocol = ''tcp'',
          sScheduler = ''rr'', sMode = ''nat''\<rparr>"

definition web2 :: Service where
  "web2 = web\<lparr>sName := ''web2''\<rparr>"

definition backend :: Destination where
  "backend = \<lparr>dName = ''a'', dHost = ''10.0.0.1'', dPort = 8080, dWeight = 1,
              dMode = ''nat'', dServiceId = ''web''\<rparr>"

definition backend2 :: Destination where
  "backend2 = \<lparr>dName = ''b'', dHost = ''10.0.0.2'', dPort = 8080, dWeight = 1,
               dMode = ''nat'', dServiceId = ''web2''\<rparr>"

definition scenario1 :: State where
  "scenario1 =
     \<lparr>GetServices = [web],
      GetDestinations = (\<lambda>s. if sName s = ''web'' then [backend] else [])\<rparr>"

definition twins :: State where
  "twins =
     \<lparr>GetServices = [web, web2],
      GetDestinations = (\<lambda>s. if sName s = ''web'' then [backend]
                              else if sName s = ''web2'' then [backend2] else [])\<rparr>"

definition empty_kernel :: kernel where
  "empty_kernel = \<lparr>table = [], faults = []\<rparr>"

text \<open>
  A run that fails: the fourth kernel call, the \<open>AddDestination\<close> of the destination pass,
  returns an error. The kernel it leaves and its log.
\<close>

definition faulty_kernel :: kernel where
  "faulty_kernel = empty_kernel\<lparr>faults := [False, False, False, True]\<rparr>"

definition faulty_left :: kernel where
  "faulty_left = \<lparr>table = [(ToIpvsService web, [])], faults = []\<rparr>"

definition faulty_log :: "event list" where
  "faulty_log =
     [StateGetServices, KGetServices None,
      StateGetDestinations (web\<lparr>sName := [], sMode := []\<rparr>),
      KAddService (ToIpvsService web) None,
      StateGetServices, StateGetDestinations web,
      KGetService (ToIpvsService web) None,
      KAddDestination (ToIpvsService web) (ToIpvsDestination backend)
        (Some (Error ''netlink''))]"

text \<open>
  The first scenario of the spec: the pass on the empty kernel, the kernel it leaves and
  its log; and the log of a second pass on that kernel.
\<close>

definition converged :: kernel where
  "converged = \<lparr>table = [(ToIpvsService web, [ToIpvsDestination backend])], faults = []\<rparr>"

definition first_log :: "event list" where
  "first_log =
     [StateGetServices, KGetServices None,
      StateGetDestinations (web\<lparr>sName := [], sMode := []\<rparr>),
      KAddService (ToIpvsService web) None,
      StateGetServices, StateGetDestinations web,
      KGetService (ToIpvsService web) None,
      KAddDestination (ToIpvsService web) (ToIpvsDestination backend) None]"


text \<open>
  Two runs in which a read of the kernel fails: the listing of the services at once, and
  the read of the destinations of \<open>web\<close> after the service has been added.
\<close>

definition deaf_kernel :: kernel where
  "deaf_kernel = empty_kernel\<lparr>faults := [True]\<rparr>"

definition read_fault_kernel :: kernel where
  "read_fault_kernel = empty_kernel\<lparr>faults := [False, False, True]\<rparr>"

definition read_fault_log :: "event list" where
  "read_fault_log =
     [StateGetServices, KGetServices None,
      StateGetDestinations (web\<lparr>sName := [], sMode := []\<rparr>),
      KAddService (ToIpvsService web) None,
      StateGetServices, StateGetDestinations web,
      KGetService (ToIpvsService web) (Some (Error ''netlink''))]"

text \<open>
  The kernel that a pass for \<open>twins\<close> leaves when it starts from the empty kernel: the one
  kernel service holds the destinations of the service that was reconciled last.
\<close>

definition twins_left :: kernel where
  "twins_left = \<lparr>table = [(ToIpvsService web, [ToIpvsDestination backend2])], faults = []\<rparr>"


section \<open>Sequencing\<close>

lemma thenM_Inr:
  "thenM m f k = (Inr b, k', tr) \<longleftrightarrow>
     (\<exists>a k1 t1 t2. m k = (Inr a, k1, t1) \<and> f a k1 = (Inr b, k', t2) \<and> tr = t1 @ t2)"
  by (auto simp: thenM_def split: prod.splits sum.splits)

lemma thenM_Inl:
  "thenM m f k = (Inl e, k', tr) \<longleftrightarrow>
     m k = (Inl e, k', tr) \<or>
     (\<exists>a k1 t1 t2. m k = (Inr a, k1, t1) \<and> f a k1 = (Inl e, k', t2) \<and> tr = t1 @ t2)"
  by (auto simp: thenM_def split: prod.splits sum.splits)

lemma returnM_eq: "returnM a k = (r, k', tr) \<longleftrightarrow> r = Inr a \<and> k' = k \<and> tr = []"
  by (auto simp: returnM_def)

lemma for_range_Nil_eq: "for_range body [] k = (r, k', tr) \<longleftrightarrow> r = Inr () \<and> k' = k \<and> tr = []"
  by (auto simp: returnM_def)

lemma for_range_Cons_Inr:
  "for_range body (x # xs) k = (Inr u, k', tr) \<longleftrightarrow>
     (\<exists>k1 t1 t2. body x k = (Inr (), k1, t1) \<and> for_range body xs k1 = (Inr u, k', t2) \<and>
                 tr = t1 @ t2)"
  by (simp add: thenM_Inr)

section \<open>A pass stops at the first error\<close>

lemma clean_append: "clean (xs @ ys) \<longleftrightarrow> clean xs \<and> clean ys"
  by (auto simp: clean_def)

lemma stops_at_error_thenM:
  assumes m: "\<And>k. stops_at_error (m k)" and f: "\<And>a k. stops_at_error (f a k)"
  shows "stops_at_error (thenM m f k)"
proof (cases "m k")
  case (fields r k1 t1)
  show ?thesis
  proof (cases r)
    case (Inl e)
    with fields m [of k] show ?thesis by (simp add: thenM_def stops_at_error_def)
  next
    case (Inr a)
    obtain r2 k2 t2 where f2: "f a k1 = (r2, k2, t2)" by (cases "f a k1")
    from fields Inr m [of k] have c1: "clean t1" by (simp add: stops_at_error_def)
    have out: "thenM m f k = (r2, k2, t1 @ t2)"
      using fields Inr f2 by (simp add: thenM_def)
    show ?thesis
    proof (cases r2)
      case (Inl e)
      with f [of a k1] f2 have "t2 \<noteq> []" "clean (butlast t2)" "ev_result (last t2) = Some e"
        by (simp_all add: stops_at_error_def)
      with c1 out Inl show ?thesis
        by (simp add: stops_at_error_def butlast_append clean_append)
    next
      case (Inr b)
      with f [of a k1] f2 have "clean t2" by (simp add: stops_at_error_def)
      with c1 out Inr show ?thesis by (simp add: stops_at_error_def clean_append)
    qed
  qed
qed

lemma stops_at_error_returnM: "stops_at_error (returnM a k)"
  by (simp add: returnM_def stops_at_error_def clean_def)

lemma stops_at_error_for_range:
  assumes "\<And>x k. stops_at_error (body x k)"
  shows "stops_at_error (for_range body xs k)"
proof (induction xs arbitrary: k)
  case Nil
  show ?case by (simp add: stops_at_error_returnM)
next
  case (Cons x xs)
  show ?case
    unfolding for_range.simps
    by (rule stops_at_error_thenM) (rule assms, rule Cons.IH)
qed

lemma stops_at_error_queries:
  "stops_at_error (state_GetServices st k)"
  "stops_at_error (state_GetDestinations st svc k)"
  by (simp_all add: state_GetServices_def state_GetDestinations_def stops_at_error_def clean_def)

lemma stops_at_error_calls:
  "stops_at_error (call_GetServices A k)"
  "stops_at_error (call_GetService A s k)"
  "stops_at_error (call_AddService A s k)"
  "stops_at_error (call_DeleteService A s k)"
  "stops_at_error (call_AddDestination A s d k)"
  "stops_at_error (call_DeleteDestination A s d k)"
  "stops_at_error (call_Flush A k)"
  by (auto simp: call_GetServices_def call_GetService_def call_AddService_def
      call_DeleteService_def call_AddDestination_def call_DeleteDestination_def call_Flush_def
      stops_at_error_def clean_def as_result_def as_error_def
      split: prod.splits sum.splits option.splits)

lemmas stops_at_error_intros =
  stops_at_error_thenM stops_at_error_returnM stops_at_error_for_range
  stops_at_error_queries stops_at_error_calls

lemma stops_at_error_addServiceAndDestinations:
  "stops_at_error (addServiceAndDestinations A svc dsts k)"
  unfolding addServiceAndDestinations_def Let_def
  by (intro stops_at_error_intros)

lemma stops_at_error_syncDestinations:
  "stops_at_error (syncDestinations A it st svc k)"
  unfolding syncDestinations_def Let_def getStateDestinationsSet_def
    getCurrentDestinationsSet_def
  by (intro stops_at_error_intros)

lemma stops_at_error_Sync: "stops_at_error (Sync A it st k)"
  unfolding Sync_def Let_def getStateServicesSet_def getCurrentServicesSet_def
  by (intro stops_at_error_intros stops_at_error_addServiceAndDestinations
      stops_at_error_syncDestinations)

section \<open>The kernel is left as the logged calls made it\<close>

lemma replay_append: "replay A (t1 @ t2) k = replay A t2 (replay A t1 k)"
  by (simp add: replay_def)

lemma replay_thenM:
  assumes m: "\<And>k. fst (snd (m k)) = replay A (snd (snd (m k))) k"
    and f: "\<And>a k. fst (snd (f a k)) = replay A (snd (snd (f a k))) k"
  shows "fst (snd (thenM m f k)) = replay A (snd (snd (thenM m f k))) k"
proof (cases "m k")
  case (fields r k1 t1)
  with m [of k] have k1: "k1 = replay A t1 k" by simp
  show ?thesis
  proof (cases r)
    case (Inl e)
    with fields k1 show ?thesis by (simp add: thenM_def)
  next
    case (Inr a)
    obtain r2 k2 t2 where f2: "f a k1 = (r2, k2, t2)" by (cases "f a k1")
    with f [of a k1] have "k2 = replay A t2 k1" by simp
    with fields Inr f2 k1 show ?thesis by (simp add: thenM_def replay_append)
  qed
qed

lemma replay_returnM: "fst (snd (returnM a k)) = replay A (snd (snd (returnM a k))) k"
  by (simp add: returnM_def replay_def)

lemma replay_for_range:
  assumes "\<And>x k. fst (snd (body x k)) = replay A (snd (snd (body x k))) k"
  shows "fst (snd (for_range body xs k)) = replay A (snd (snd (for_range body xs k))) k"
proof (induction xs arbitrary: k)
  case Nil
  show ?case by (simp add: replay_returnM)
next
  case (Cons x xs)
  show ?case
    unfolding for_range.simps
    by (rule replay_thenM) (rule assms, rule Cons.IH)
qed

lemma replay_queries:
  "fst (snd (state_GetServices st k)) = replay A (snd (snd (state_GetServices st k))) k"
  "fst (snd (state_GetDestinations st svc k)) =
     replay A (snd (snd (state_GetDestinations st svc k))) k"
  by (simp_all add: state_GetServices_def state_GetDestinations_def replay_def)

lemma replay_calls:
  "fst (snd (call_GetServices A k)) = replay A (snd (snd (call_GetServices A k))) k"
  "fst (snd (call_GetService A s k)) = replay A (snd (snd (call_GetService A s k))) k"
  "fst (snd (call_AddService A s k)) = replay A (snd (snd (call_AddService A s k))) k"
  "fst (snd (call_DeleteService A s k)) = replay A (snd (snd (call_DeleteService A s k))) k"
  "fst (snd (call_AddDestination A s d k)) =
     replay A (snd (snd (call_AddDestination A s d k))) k"
  "fst (snd (call_DeleteDestination A s d k)) =
     replay A (snd (snd (call_DeleteDestination A s d k))) k"
  by (simp_all add: call_GetServices_def call_GetService_def call_AddService_def
      call_DeleteService_def call_AddDestination_def call_DeleteDestination_def
      replay_def split: prod.splits)

lemmas replay_intros =
  replay_thenM replay_returnM replay_for_range replay_queries replay_calls

lemma replay_addServiceAndDestinations:
  "fst (snd (addServiceAndDestinations A svc dsts k)) =
     replay A (snd (snd (addServiceAndDestinations A svc dsts k))) k"
  unfolding addServiceAndDestinations_def Let_def
  by (intro replay_intros)

lemma replay_syncDestinations:
  "fst (snd (syncDestinations A it st svc k)) =
     replay A (snd (snd (syncDestinations A it st svc k))) k"
  unfolding syncDestinations_def Let_def getStateDestinationsSet_def
    getCurrentDestinationsSet_def
  by (intro replay_intros)

lemma replay_Sync:
  "fst (snd (Sync A it st k)) = replay A (snd (snd (Sync A it st k))) k"
  unfolding Sync_def Let_def getStateServicesSet_def getCurrentServicesSet_def
  by (intro replay_intros replay_addServiceAndDestinations replay_syncDestinations)


section \<open>Concrete runs\<close>

lemmas eval_defs = Sync_def syncDestinations_def addServiceAndDestinations_def
  getStateServicesSet_def getCurrentServicesSet_def getStateDestinationsSet_def
  getCurrentDestinationsSet_def stateServicesLoop_def currentServicesLoop_def
  stateDestinationsLoop_def currentDestinationsLoop_def
  thenM_def returnM_def as_result_def as_error_def
  state_GetServices_def state_GetDestinations_def
  call_GetServices_def call_GetService_def call_AddService_def call_DeleteService_def
  call_AddDestination_def call_DeleteDestination_def
  NewSet_def Add_def Difference_def
  ref_gipvs_def ref_GetServices_def ref_GetService_def ref_AddService_def
  ref_DeleteService_def ref_AddDestination_def ref_DeleteDestination_def
  fault_def consume_def
  ToIpvsService_def FromService_def ToIpvsDestination_def fromDestination_def
  in_order_def web_def web2_def backend_def backend2_def scenario1_def twins_def
  empty_kernel_def faulty_kernel_def converged_def deaf_kernel_def read_fault_kernel_def twins_left_def Let_def

lemma run_faulty:
  "Sync ref_gipvs in_order scenario1 faulty_kernel =
     (Inl (Error ''netlink''), faulty_left, faulty_log)"
  by (simp add: eval_defs faulty_left_def faulty_log_def)

section \<open>Error handling\<close>

text \<open>
  C6. A call of the kernel library that returns an error is the last call of the pass:
  nothing follows it in the log (no further call, no retry, no call that undoes an earlier
  one), and \<open>Sync\<close> returns that very error. An error that \<open>Sync\<close> returns is the error of
  its last call. The kernel is left in the state that the logged calls produced. This
  holds for every kernel library, every iteration order and every desired state, and for
  the reading calls as well as for the four mutating ones.
\<close>

theorem Sync_aborts_on_first_error:
  assumes run: "Sync A it st k = (r, k', tr)"
  shows "(\<forall>pre ev post e. tr = pre @ ev # post \<and> ev_result ev = Some e \<longrightarrow> post = [] \<and> r = Inl e)
       \<and> (\<forall>e. r = Inl e \<longrightarrow> tr \<noteq> [] \<and> ev_result (last tr) = Some e)
       \<and> k' = replay A tr k"
proof -
  have stop: "stops_at_error (r, k', tr)"
    using stops_at_error_Sync [of A it st k] run by simp
  have kernel: "k' = replay A tr k"
    using replay_Sync [of A it st k] run by simp
  have last: "tr \<noteq> [] \<and> ev_result (last tr) = Some e" if "r = Inl e" for e
    using stop that by (simp add: stops_at_error_def)
  have first: "post = [] \<and> r = Inl e"
    if h: "tr = pre @ ev # post \<and> ev_result ev = Some e" for pre ev post e
  proof (cases r)
    case (Inr u)
    with stop have "clean tr" by (simp add: stops_at_error_def)
    with h show ?thesis by (auto simp: clean_def)
  next
    case (Inl e')
    with stop have l: "clean (butlast tr)" "ev_result (last tr) = Some e'"
      by (simp_all add: stops_at_error_def)
    have "post = []"
    proof (rule ccontr)
      assume "post \<noteq> []"
      with h have "ev \<in> set (butlast tr)" by (simp add: butlast_append)
      with l h show False by (auto simp: clean_def)
    qed
    with h l Inl show ?thesis by simp
  qed
  from first last kernel show ?thesis by blast
qed

theorem Sync_aborts_on_first_error_witness:
  "Sync ref_gipvs in_order scenario1 faulty_kernel =
     (Inl (Error ''netlink''), faulty_left, faulty_log) \<and>
   faulty_log = butlast faulty_log @ last faulty_log # [] \<and>
   ev_result (last faulty_log) = Some (Error ''netlink'') \<and>
   faulty_left = replay ref_gipvs faulty_log faulty_kernel"
proof -
  note t = Sync_aborts_on_first_error [OF run_faulty]
  from t have a: "faulty_log \<noteq> [] \<and> ev_result (last faulty_log) = Some (Error ''netlink'')"
    by blast
  from t have b: "faulty_left = replay ref_gipvs faulty_log faulty_kernel"
    by blast
  from a have c: "faulty_log = butlast faulty_log @ last faulty_log # []"
    by simp
  from run_faulty a b c show ?thesis by blast
qed

section \<open>The sets\<close>

lemma set_Add: "set (Add x S) = insert x (set S)"
  by (auto simp: Add_def)

lemma distinct_Add: "distinct S \<Longrightarrow> distinct (Add x S)"
  by (simp add: Add_def)

lemma set_foldl_Add: "set (foldl (\<lambda>S x. Add (f x) S) S0 xs) = set S0 \<union> f ` set xs"
  by (induction xs arbitrary: S0) (auto simp: set_Add)

lemma distinct_foldl_Add: "distinct S0 \<Longrightarrow> distinct (foldl (\<lambda>S x. Add (f x) S) S0 xs)"
  by (induction xs arbitrary: S0) (auto simp: distinct_Add)

lemma set_Difference: "set (Difference S T) = set S - set T"
  by (auto simp: Difference_def)

lemma distinct_Difference: "distinct S \<Longrightarrow> distinct (Difference S T)"
  by (simp add: Difference_def)

lemma set_stateServicesLoop:
  "set (stateServicesLoop svcs) = (\<lambda>s. s\<lparr>sName := [], sMode := []\<rparr>) ` set svcs"
  by (simp add: stateServicesLoop_def set_foldl_Add NewSet_def)

lemma set_currentServicesLoop: "set (currentServicesLoop ks) = FromService ` set ks"
  by (simp add: currentServicesLoop_def set_foldl_Add NewSet_def)

lemma set_stateDestinationsLoop:
  "set (stateDestinationsLoop dsts) = (\<lambda>d. d\<lparr>dName := [], dServiceId := []\<rparr>) ` set dsts"
  by (simp add: stateDestinationsLoop_def set_foldl_Add NewSet_def)

lemma set_currentDestinationsLoop: "set (currentDestinationsLoop ks) = fromDestination ` set ks"
  by (simp add: currentDestinationsLoop_def set_foldl_Add NewSet_def)

lemma distinct_loops:
  "distinct (stateServicesLoop svcs)" "distinct (currentServicesLoop ks)"
  "distinct (stateDestinationsLoop dsts)" "distinct (currentDestinationsLoop kds)"
  by (simp_all add: stateServicesLoop_def currentServicesLoop_def stateDestinationsLoop_def
      currentDestinationsLoop_def distinct_foldl_Add NewSet_def)

section \<open>The translators\<close>

lemma normalized_service_eq:
  "s\<lparr>sName := [], sMode := []\<rparr> = t\<lparr>sName := [], sMode := []\<rparr> \<longleftrightarrow>
     service_identity s = service_identity t"
  by (cases s, cases t) (simp add: service_identity_def)

lemma normalized_destination_eq:
  "d\<lparr>dName := [], dServiceId := []\<rparr> = e\<lparr>dName := [], dServiceId := []\<rparr> \<longleftrightarrow>
     destination_identity d = destination_identity e"
  by (cases d, cases e) (simp add: destination_identity_def)



lemma ToIpvsService_normalized: "ToIpvsService (s\<lparr>sName := [], sMode := []\<rparr>) = ToIpvsService s"
  by (simp add: ToIpvsService_def)




lemma ToIpvsDestination_normalized:
  "ToIpvsDestination (d\<lparr>dName := [], dServiceId := []\<rparr>) = ToIpvsDestination d"
  by (simp add: ToIpvsDestination_def)

lemma FromService_metadata: "sName (FromService k) = [] \<and> sMode (FromService k) = []"
  by (simp add: FromService_def)

lemma fromDestination_metadata:
  "dName (fromDestination k) = [] \<and> dServiceId (fromDestination k) = []"
  by (simp add: fromDestination_def)

section \<open>Normalization and the difference of the sets\<close>

text \<open>
  C3. The sets compare the copies that the loops of \<open>getStateServicesSet\<close> and
  \<open>getStateDestinationsSet\<close> build. Two services yield the same copy exactly when they
  have the same host, port, protocol and scheduler, whatever their names and modes; the
  set built from both then has one element. Two destinations yield the same copy exactly
  when they have the same host, port, weight and forwarding mode, whatever their names and
  owning services. A Go map hashes consistently with \<open>==\<close>, so equal copies are one key.
\<close>

theorem normalization_compares_identity:
  "(stateServicesLoop [s] = stateServicesLoop [t] \<longleftrightarrow>
      sHost s = sHost t \<and> sPort s = sPort t \<and> sProtocol s = sProtocol t \<and>
      sScheduler s = sScheduler t) \<and>
   (length (stateServicesLoop [s, t]) = 1 \<longleftrightarrow> service_identity s = service_identity t) \<and>
   (stateDestinationsLoop [d] = stateDestinationsLoop [e] \<longleftrightarrow>
      dHost d = dHost e \<and> dPort d = dPort e \<and> dWeight d = dWeight e \<and> dMode d = dMode e) \<and>
   (length (stateDestinationsLoop [d, e]) = 1 \<longleftrightarrow>
      destination_identity d = destination_identity e)"
  by (auto simp: stateServicesLoop_def stateDestinationsLoop_def NewSet_def Add_def
      normalized_service_eq normalized_destination_eq service_identity_def
      destination_identity_def)

theorem normalization_compares_identity_witness:
  "stateServicesLoop [web] = stateServicesLoop [web2] \<and> web \<noteq> web2 \<and>
   length (stateServicesLoop [web, web2]) = 1 \<and>
   stateServicesLoop [web] \<noteq> stateServicesLoop [web\<lparr>sScheduler := ''wrr''\<rparr>] \<and>
   stateDestinationsLoop [backend] = stateDestinationsLoop [backend\<lparr>dName := ''z'', dServiceId := ''other''\<rparr>] \<and>
   stateDestinationsLoop [backend] \<noteq> stateDestinationsLoop [backend\<lparr>dWeight := 2\<rparr>]"
  using normalization_compares_identity [of web web2 backend "backend\<lparr>dName := ''z'', dServiceId := ''other''\<rparr>"]
    normalization_compares_identity [of web "web\<lparr>sScheduler := ''wrr''\<rparr>" backend "backend\<lparr>dWeight := 2\<rparr>"]
  by (simp add: web_def web2_def backend_def service_identity_def destination_identity_def)

text \<open>
  C2, as the code has it. \<open>toAdd\<close> is the set of the normalized copies of the desired
  entities minus the set of the entities read from the kernel, and \<open>toRemove\<close> the
  converse, at the level of the services (lines 57 and 58) and at the level of the
  destinations of one service (lines 98 and 99); no element occurs twice. The elements of
  \<open>toAdd\<close> are the normalized copies, not the entities the provider returned.
\<close>

theorem difference_of_normalized_sets:
  "set (Difference (stateServicesLoop desired) (currentServicesLoop current)) =
     (\<lambda>s. s\<lparr>sName := [], sMode := []\<rparr>) ` set desired - FromService ` set current \<and>
   set (Difference (currentServicesLoop current) (stateServicesLoop desired)) =
     FromService ` set current - (\<lambda>s. s\<lparr>sName := [], sMode := []\<rparr>) ` set desired \<and>
   set (Difference (stateDestinationsLoop ddesired) (currentDestinationsLoop dcurrent)) =
     (\<lambda>d. d\<lparr>dName := [], dServiceId := []\<rparr>) ` set ddesired - fromDestination ` set dcurrent \<and>
   set (Difference (currentDestinationsLoop dcurrent) (stateDestinationsLoop ddesired)) =
     fromDestination ` set dcurrent - (\<lambda>d. d\<lparr>dName := [], dServiceId := []\<rparr>) ` set ddesired \<and>
   distinct (Difference (stateServicesLoop desired) (currentServicesLoop current)) \<and>
   distinct (Difference (currentServicesLoop current) (stateServicesLoop desired)) \<and>
   distinct (Difference (stateDestinationsLoop ddesired) (currentDestinationsLoop dcurrent)) \<and>
   distinct (Difference (currentDestinationsLoop dcurrent) (stateDestinationsLoop ddesired))"
  by (simp add: set_Difference distinct_Difference distinct_loops set_stateServicesLoop
      set_currentServicesLoop set_stateDestinationsLoop set_currentDestinationsLoop)

text \<open>
  C2 as stated fails: for the desired service \<open>web\<close>, whose name is not empty, and an empty
  kernel, the only element of \<open>toAdd\<close> is the copy without name and mode; the original
  entity \<open>web\<close> is in the desired set, not in the current set, and not in \<open>toAdd\<close>.
\<close>

theorem difference_returns_copies:
  "Difference (stateServicesLoop [web]) (currentServicesLoop []) = [web\<lparr>sName := [], sMode := []\<rparr>] \<and>
   web \<notin> set (Difference (stateServicesLoop [web]) (currentServicesLoop [])) \<and>
   web \<notin> set (currentServicesLoop [])"
  by (simp add: Difference_def stateServicesLoop_def currentServicesLoop_def NewSet_def Add_def web_def)


section \<open>Calls that succeed\<close>

lemma call_GetServices_Inr:
  "call_GetServices A k = (Inr xs, k', tr) \<longleftrightarrow>
     gipvs_GetServices A k = (Inr xs, k') \<and> tr = [KGetServices None]"
  by (auto simp: call_GetServices_def as_error_def split: prod.splits)


lemma call_AddService_Inr:
  "call_AddService A s k = (Inr u, k', tr) \<longleftrightarrow>
     gipvs_AddService A s k = (None, k') \<and> tr = [KAddService s None]"
  by (auto simp: call_AddService_def as_result_def split: prod.splits option.splits)

lemma call_DeleteService_Inr:
  "call_DeleteService A s k = (Inr u, k', tr) \<longleftrightarrow>
     gipvs_DeleteService A s k = (None, k') \<and> tr = [KDeleteService s None]"
  by (auto simp: call_DeleteService_def as_result_def split: prod.splits option.splits)

lemma call_AddDestination_Inr:
  "call_AddDestination A s d k = (Inr u, k', tr) \<longleftrightarrow>
     gipvs_AddDestination A s d k = (None, k') \<and> tr = [KAddDestination s d None]"
  by (auto simp: call_AddDestination_def as_result_def split: prod.splits option.splits)


lemma state_GetServices_eq:
  "state_GetServices st k = (r, k', tr) \<longleftrightarrow>
     r = Inr (GetServices st) \<and> k' = k \<and> tr = [StateGetServices]"
  by (auto simp: state_GetServices_def)

lemma state_GetDestinations_eq:
  "state_GetDestinations st svc k = (r, k', tr) \<longleftrightarrow>
     r = Inr (GetDestinations st svc) \<and> k' = k \<and> tr = [StateGetDestinations svc]"
  by (auto simp: state_GetDestinations_def)

section \<open>The log of a loop that succeeds\<close>

lemma for_range_success_log:
  assumes "\<And>x k k' t. body x k = (Inr (), k', t) \<Longrightarrow> t = g x"
  shows "for_range body xs k = (Inr u, k', tr) \<Longrightarrow> tr = concat (map g xs)"
proof (induction xs arbitrary: k tr)
  case Nil
  then show ?case by (simp add: returnM_eq)
next
  case (Cons x xs)
  from Cons.prems obtain k1 t1 t2 where
    b: "body x k = (Inr (), k1, t1)" and r: "for_range body xs k1 = (Inr u, k', t2)"
    and tr: "tr = t1 @ t2"
    unfolding for_range_Cons_Inr by blast
  from assms [OF b] Cons.IH [OF r] tr show ?case by simp
qed


lemma concat_map_singleton: "concat (map (\<lambda>x. [h x]) xs) = map h xs"
  by (induction xs) simp_all

lemma add_destinations_log:
  "for_range (\<lambda>d. call_AddDestination A s (f d)) ds k = (Inr u, k', tr) \<Longrightarrow>
     tr = map (\<lambda>d. KAddDestination s (f d) None) ds"
  using for_range_success_log [where body = "\<lambda>d. call_AddDestination A s (f d)"
      and g = "\<lambda>d. [KAddDestination s (f d) None]"]
  by (simp add: call_AddDestination_Inr concat_map_singleton)


lemma delete_services_log:
  "for_range (\<lambda>s. call_DeleteService A (f s)) xs k = (Inr u, k', tr) \<Longrightarrow>
     tr = map (\<lambda>s. KDeleteService (f s) None) xs"
  using for_range_success_log [where body = "\<lambda>s. call_DeleteService A (f s)"
      and g = "\<lambda>s. [KDeleteService (f s) None]"]
  by (simp add: call_DeleteService_Inr concat_map_singleton)

lemma added_log_body:
  "thenM (state_GetDestinations st s) (\<lambda>dsts. addServiceAndDestinations A s dsts) k =
     (Inr u, k', tr) \<Longrightarrow> tr = added_log st s"
  by (auto simp: thenM_Inr state_GetDestinations_eq addServiceAndDestinations_def Let_def
      call_AddService_Inr added_log_def dest: add_destinations_log)

lemma add_services_log:
  "for_range (\<lambda>s. thenM (state_GetDestinations st s) (\<lambda>dsts. addServiceAndDestinations A s dsts))
     xs k = (Inr u, k', tr) \<Longrightarrow> tr = concat (map (added_log st) xs)"
  using for_range_success_log [where
      body = "\<lambda>s. thenM (state_GetDestinations st s) (\<lambda>dsts. addServiceAndDestinations A s dsts)"
      and g = "added_log st"]
  by (simp add: added_log_body)

lemma Sync_success:
  assumes "Sync A it st k = (Inr u, k', tr)"
  obtains xs k1 k2 k3 t4 where
    "gipvs_GetServices A k = (Inr xs, k1)"
    "for_range
       (\<lambda>s. thenM (state_GetDestinations st s) (\<lambda>dsts. addServiceAndDestinations A s dsts))
       (Iter_services it
          (Difference (stateServicesLoop (GetServices st)) (currentServicesLoop xs))) k1 =
     (Inr (), k2,
      concat (map (added_log st)
        (Iter_services it
           (Difference (stateServicesLoop (GetServices st)) (currentServicesLoop xs)))))"
    "for_range (\<lambda>s. call_DeleteService A (ToIpvsService s))
       (Iter_services it
          (Difference (currentServicesLoop xs) (stateServicesLoop (GetServices st)))) k2 =
     (Inr (), k3,
      map (\<lambda>s. KDeleteService (ToIpvsService s) None)
        (Iter_services it
           (Difference (currentServicesLoop xs) (stateServicesLoop (GetServices st)))))"
    "for_range (syncDestinations A it st) (GetServices st) k3 = (Inr (), k', t4)"
    "tr = [StateGetServices, KGetServices None] @
          concat (map (added_log st)
            (Iter_services it
               (Difference (stateServicesLoop (GetServices st)) (currentServicesLoop xs)))) @
          map (\<lambda>s. KDeleteService (ToIpvsService s) None)
            (Iter_services it
               (Difference (currentServicesLoop xs) (stateServicesLoop (GetServices st)))) @
          StateGetServices # t4"
proof -
  from assms obtain xs k1 k2 k3 t2 t3 t4 where
    g: "gipvs_GetServices A k = (Inr xs, k1)" and
    a: "for_range
       (\<lambda>s. thenM (state_GetDestinations st s) (\<lambda>dsts. addServiceAndDestinations A s dsts))
       (Iter_services it
          (Difference (stateServicesLoop (GetServices st)) (currentServicesLoop xs))) k1 =
       (Inr (), k2, t2)" and
    d: "for_range (\<lambda>s. call_DeleteService A (ToIpvsService s))
       (Iter_services it
          (Difference (currentServicesLoop xs) (stateServicesLoop (GetServices st)))) k2 =
       (Inr (), k3, t3)" and
    s: "for_range (syncDestinations A it st) (GetServices st) k3 = (Inr (), k', t4)" and
    tr: "tr = [StateGetServices, KGetServices None] @ t2 @ t3 @ StateGetServices # t4"
    unfolding Sync_def Let_def getStateServicesSet_def getCurrentServicesSet_def
    by (auto simp: thenM_Inr returnM_eq state_GetServices_eq call_GetServices_Inr)
  from add_services_log [OF a] delete_services_log [OF d] g a d s tr
  show ?thesis by (intro that [of xs k1 k2 k3 t4]) simp_all
qed








section \<open>The destination pass\<close>


lemma run_first:
  "Sync ref_gipvs in_order scenario1 empty_kernel = (Inr (), converged, first_log)"
  by (simp add: eval_defs first_log_def)



section \<open>What the differences hold\<close>

text \<open>
  C10. Every element of the four differences has its metadata cleared: name and mode for
  the services, name and owning service for the destinations. The elements read from the
  kernel have them empty by the translators, which are modelled from the spec. In a pass
  that succeeds, the log after the two opening reads is, for each service of \<open>toAdd\<close> in
  the order of iteration, the query \<open>GetDestinations\<close> with that stripped copy, the call
  \<open>AddService\<close> with its kernel form, and \<open>AddDestination\<close> for each destination that the
  query returned.
\<close>

theorem diff_elements_are_stripped_copies:
  "(x \<in> set (Difference (stateServicesLoop desired) (currentServicesLoop current)) \<union>
        set (Difference (currentServicesLoop current) (stateServicesLoop desired)) \<longrightarrow>
      sName x = [] \<and> sMode x = []) \<and>
   (y \<in> set (Difference (stateDestinationsLoop ddesired) (currentDestinationsLoop dcurrent)) \<union>
        set (Difference (currentDestinationsLoop dcurrent) (stateDestinationsLoop ddesired)) \<longrightarrow>
      dName y = [] \<and> dServiceId y = []) \<and>
   (Sync A it st k = (Inr u, k', tr) \<longrightarrow>
      (\<exists>xs ka rest.
         gipvs_GetServices A k = (Inr xs, ka) \<and>
         tr = [StateGetServices, KGetServices None] @
              concat (map (added_log st)
                (Iter_services it
                   (Difference (stateServicesLoop (GetServices st))
                      (currentServicesLoop xs)))) @ rest))"
proof (intro conjI impI)
  assume "x \<in> set (Difference (stateServicesLoop desired) (currentServicesLoop current)) \<union>
        set (Difference (currentServicesLoop current) (stateServicesLoop desired))"
  then show "sName x = []" "sMode x = []"
    by (auto simp: set_Difference set_stateServicesLoop set_currentServicesLoop
        FromService_def)
next
  assume "y \<in> set (Difference (stateDestinationsLoop ddesired) (currentDestinationsLoop dcurrent)) \<union>
        set (Difference (currentDestinationsLoop dcurrent) (stateDestinationsLoop ddesired))"
  then show "dName y = []" "dServiceId y = []"
    by (auto simp: set_Difference set_stateDestinationsLoop set_currentDestinationsLoop
        fromDestination_def)
next
  assume "Sync A it st k = (Inr u, k', tr)"
  then show "\<exists>xs ka rest.
         gipvs_GetServices A k = (Inr xs, ka) \<and>
         tr = [StateGetServices, KGetServices None] @
              concat (map (added_log st)
                (Iter_services it
                   (Difference (stateServicesLoop (GetServices st))
                      (currentServicesLoop xs)))) @ rest"
    by (elim Sync_success) blast
qed

theorem diff_elements_are_stripped_copies_witness:
  "web\<lparr>sName := [], sMode := []\<rparr> \<in>
     set (Difference (stateServicesLoop [web]) (currentServicesLoop [])) \<union>
     set (Difference (currentServicesLoop []) (stateServicesLoop [web])) \<and>
   sName (web\<lparr>sName := [], sMode := []\<rparr>) = [] \<and> sMode (web\<lparr>sName := [], sMode := []\<rparr>) = [] \<and>
   fromDestination (ToIpvsDestination backend) \<in>
     set (Difference (stateDestinationsLoop []) (currentDestinationsLoop [ToIpvsDestination backend])) \<union>
     set (Difference (currentDestinationsLoop [ToIpvsDestination backend]) (stateDestinationsLoop [])) \<and>
   dName (fromDestination (ToIpvsDestination backend)) = [] \<and>
   dServiceId (fromDestination (ToIpvsDestination backend)) = [] \<and>
   Sync ref_gipvs in_order scenario1 empty_kernel = (Inr (), converged, first_log) \<and>
   (\<exists>xs ka rest.
      gipvs_GetServices ref_gipvs empty_kernel = (Inr xs, ka) \<and>
      first_log = [StateGetServices, KGetServices None] @
        concat (map (added_log scenario1)
          (Iter_services in_order
             (Difference (stateServicesLoop (GetServices scenario1))
                (currentServicesLoop xs)))) @ rest)"
proof -
  have x: "web\<lparr>sName := [], sMode := []\<rparr> \<in>
     set (Difference (stateServicesLoop [web]) (currentServicesLoop [])) \<union>
     set (Difference (currentServicesLoop []) (stateServicesLoop [web]))"
    by (simp add: set_Difference set_stateServicesLoop set_currentServicesLoop)
  have y: "fromDestination (ToIpvsDestination backend) \<in>
     set (Difference (stateDestinationsLoop []) (currentDestinationsLoop [ToIpvsDestination backend])) \<union>
     set (Difference (currentDestinationsLoop [ToIpvsDestination backend]) (stateDestinationsLoop []))"
    by (simp add: set_Difference set_stateDestinationsLoop set_currentDestinationsLoop)
  note t = diff_elements_are_stripped_copies [of "web\<lparr>sName := [], sMode := []\<rparr>" "[web]" "[]"
      "fromDestination (ToIpvsDestination backend)" "[]" "[ToIpvsDestination backend]"
      ref_gipvs in_order scenario1 empty_kernel "()" converged first_log]
  from t x y run_first show ?thesis by blast
qed

section \<open>Queries to the provider\<close>













section \<open>Reads that fail\<close>

lemma error_is_last:
  assumes stop: "stops_at_error (r, k', tr)"
    and h: "tr = pre @ ev # post" "ev_result ev = Some e"
  shows "post = [] \<and> r = Inl e"
proof (cases r)
  case (Inr u)
  with stop have "clean tr" by (simp add: stops_at_error_def)
  with h show ?thesis by (auto simp: clean_def)
next
  case (Inl e')
  with stop have l: "clean (butlast tr)" "ev_result (last tr) = Some e'"
    by (simp_all add: stops_at_error_def)
  have "post = []"
  proof (rule ccontr)
    assume "post \<noteq> []"
    with h have "ev \<in> set (butlast tr)" by (simp add: butlast_append)
    with l h show False by (auto simp: clean_def)
  qed
  with h l Inl show ?thesis by simp
qed

lemma Sync_listing_fails:
  assumes "gipvs_GetServices A k = (Inl e, k1)"
  shows "Sync A it st k = (Inl e, k1, [StateGetServices, KGetServices (Some e)])"
  using assms
  by (simp add: Sync_def getStateServicesSet_def getCurrentServicesSet_def thenM_def
      returnM_def state_GetServices_def call_GetServices_def as_error_def)

text \<open>
  C7, as the code has it. When the listing of the services fails, \<open>Sync\<close> returns that
  error and the log holds the query and the listing only: nothing was mutated. When the
  read of the destinations of a service fails, \<open>Sync\<close> returns that error and makes no
  further call; what the pass has done before stays.
\<close>

theorem read_failure_aborts:
  "(gipvs_GetServices A k = (Inl e, k1) \<longrightarrow>
      Sync A it st k = (Inl e, k1, [StateGetServices, KGetServices (Some e)])) \<and>
   (Sync A it st k = (r, k', tr) \<and> tr = pre @ KGetService s (Some e) # post \<longrightarrow>
      post = [] \<and> r = Inl e)"
proof (intro conjI impI)
  assume "gipvs_GetServices A k = (Inl e, k1)"
  then show "Sync A it st k = (Inl e, k1, [StateGetServices, KGetServices (Some e)])"
    by (rule Sync_listing_fails)
next
  assume h: "Sync A it st k = (r, k', tr) \<and> tr = pre @ KGetService s (Some e) # post"
  with stops_at_error_Sync [of A it st k] have "stops_at_error (r, k', tr)" by simp
  from error_is_last [OF this, of pre "KGetService s (Some e)" post e] h
  show "post = []" "r = Inl e" by simp_all
qed

lemma run_deaf:
  "Sync ref_gipvs in_order scenario1 deaf_kernel =
     (Inl (Error ''netlink''), empty_kernel, [StateGetServices, KGetServices (Some (Error ''netlink''))])"
  by (simp add: eval_defs)

lemma run_read_fault:
  "Sync ref_gipvs in_order scenario1 read_fault_kernel =
     (Inl (Error ''netlink''), faulty_left, read_fault_log)"
  by (simp add: eval_defs faulty_left_def read_fault_log_def)

text \<open>
  C7 as stated fails: in the first scenario, with the third kernel call failing, the read
  of the destinations of \<open>web\<close> fails after \<open>AddService\<close> has put \<open>web\<close> into the
  table, and the table stays changed.
\<close>

theorem read_failure_after_mutation:
  "Sync ref_gipvs in_order scenario1 read_fault_kernel =
     (Inl (Error ''netlink''), faulty_left, read_fault_log) \<and>
   read_fault_log ! 3 = KAddService (ToIpvsService web) None \<and>
   is_mutation (read_fault_log ! 3) \<and>
   read_fault_log ! 6 = KGetService (ToIpvsService web) (Some (Error ''netlink'')) \<and>
   table read_fault_kernel = [] \<and>
   table faulty_left = [(ToIpvsService web, [])]"
  using run_read_fault
  by (simp add: read_fault_log_def read_fault_kernel_def faulty_left_def empty_kernel_def)

theorem read_failure_aborts_witness:
  "gipvs_GetServices ref_gipvs deaf_kernel = (Inl (Error ''netlink''), empty_kernel) \<and>
   Sync ref_gipvs in_order scenario1 deaf_kernel =
     (Inl (Error ''netlink''), empty_kernel,
      [StateGetServices, KGetServices (Some (Error ''netlink''))]) \<and>
   Sync ref_gipvs in_order scenario1 read_fault_kernel =
     (Inl (Error ''netlink''), faulty_left, read_fault_log) \<and>
   read_fault_log =
     take 6 read_fault_log @ KGetService (ToIpvsService web) (Some (Error ''netlink'')) # []"
proof -
  have a: "gipvs_GetServices ref_gipvs deaf_kernel = (Inl (Error ''netlink''), empty_kernel)"
    by (simp add: ref_gipvs_def ref_GetServices_def fault_def consume_def deaf_kernel_def
        empty_kernel_def)
  have b: "read_fault_log =
     take 6 read_fault_log @ KGetService (ToIpvsService web) (Some (Error ''netlink'')) # []"
    by (simp add: read_fault_log_def)
  note t = read_failure_aborts [of ref_gipvs deaf_kernel "Error ''netlink''" empty_kernel
      in_order scenario1]
  from t a b run_read_fault show ?thesis by blast
qed


section \<open>The reference kernel meets the contract\<close>








section \<open>What the calls do under the contract\<close>























section \<open>Convergence\<close>



lemma unique_identities_agree:
  assumes "inj_on service_identity (set (GetServices st))"
  shows "destinations_agree st"
  unfolding destinations_agree_def
proof (intro ballI impI)
  fix s t
  assume "s \<in> set (GetServices st)" "t \<in> set (GetServices st)"
    "service_identity s = service_identity t"
  with assms have "s = t" by (simp add: inj_on_def)
  then show "set (stateDestinationsLoop (GetDestinations st s)) =
        set (stateDestinationsLoop (GetDestinations st t))"
    by simp
qed








section \<open>A pass on a converged kernel\<close>












end
